theory Spec2Isabelle
  imports Main "HOL-Library.Word"
begin

unbundle bit_operations_syntax

section \<open>Host values\<close>

text \<open>
  The library is written in JavaScript and handles values of any kind: an action may be
  an object, a function, \<open>null\<close> or a primitive, a listener is whatever was handed to
  \<open>subscribe\<close>, the middleware argument is only tested for truthiness. Values are
  therefore modelled as the host has them. Objects and functions are references into
  a heap; a function is an object too, and what it does when it is called is told
  apart from its properties. A number is its IEEE-754 binary64 bit pattern, which is
  all that identity and truthiness need. Of the binding to the component framework
  (\<open>Provider\<close>, \<open>Connect\<close>) only the function \<open>shallowEqual\<close> is modelled.
\<close>

type_synonym addr = nat

datatype jsval =
    JUndefined
  | JNull
  | JBool bool
  | JNum "64 word"
  | JBigInt int
  | JStr string
  | JSymbol nat
  | JObj addr
  | JFun addr

text \<open>The \<open>typeof\<close> operator; \<open>typeof null\<close> is \<open>'object'\<close>.\<close>

fun typeof :: "jsval \<Rightarrow> string" where
  "typeof JUndefined = ''undefined''"
| "typeof JNull = ''object''"
| "typeof (JBool b) = ''boolean''"
| "typeof (JNum n) = ''number''"
| "typeof (JBigInt i) = ''bigint''"
| "typeof (JStr s) = ''string''"
| "typeof (JSymbol n) = ''symbol''"
| "typeof (JObj a) = ''object''"
| "typeof (JFun f) = ''function''"

definition is_nan :: "64 word \<Rightarrow> bool" where
  "is_nan w = (0x7FF0000000000000 < (w AND 0x7FFFFFFFFFFFFFFF))"

definition is_zero :: "64 word \<Rightarrow> bool" where
  "is_zero w = ((w AND 0x7FFFFFFFFFFFFFFF) = 0)"

text \<open>
  Truthiness, as \<open>if (v)\<close> and \<open>v && ...\<close> test it: \<open>undefined\<close>, \<open>null\<close>,
  \<open>false\<close>, \<open>+0\<close>, \<open>-0\<close>, \<open>NaN\<close>, \<open>0n\<close> and the empty string are falsy.
\<close>

fun truthy :: "jsval \<Rightarrow> bool" where
  "truthy JUndefined = False"
| "truthy JNull = False"
| "truthy (JBool b) = b"
| "truthy (JNum n) = (\<not> is_zero n \<and> \<not> is_nan n)"
| "truthy (JBigInt i) = (i \<noteq> 0)"
| "truthy (JStr s) = (s \<noteq> [])"
| "truthy (JSymbol n) = True"
| "truthy (JObj a) = True"
| "truthy (JFun f) = True"

text \<open>
  \<open>Object.is\<close> (SameValue): every value is the same as itself, all NaNs are the same,
  and \<open>+0\<close> differs from \<open>-0\<close>. Objects and functions are compared by reference.
\<close>

fun Object_is :: "jsval \<Rightarrow> jsval \<Rightarrow> bool" where
  "Object_is (JNum a) (JNum b) = (a = b \<or> (is_nan a \<and> is_nan b))"
| "Object_is x y = (x = y)"

text \<open>
  Strict equality (\<open>===\<close>; \<open>!==\<close> is its negation): as \<open>Object.is\<close>, except that
  NaN is not equal to itself and the two zeros are equal.
\<close>

fun strict_eq :: "jsval \<Rightarrow> jsval \<Rightarrow> bool" where
  "strict_eq (JNum a) (JNum b) =
     (\<not> is_nan a \<and> \<not> is_nan b \<and> (a = b \<or> (is_zero a \<and> is_zero b)))"
| "strict_eq x y = (x = y)"

text \<open>
  The number that a natural number below \<open>2^53\<close> is, as the length of a string is:
  the exponent is the position of its leading bit, the rest of it is the fraction.
\<close>

fun bit_len :: "nat \<Rightarrow> nat" where
  "bit_len n = (if n = 0 then 0 else Suc (bit_len (n div 2)))"

definition num_of_nat :: "nat \<Rightarrow> 64 word" where
  "num_of_nat n =
     (if n = 0 then 0
      else word_of_nat ((1022 + bit_len n) * 2 ^ 52 + (n - 2 ^ (bit_len n - 1)) * 2 ^ (53 - bit_len n)))"

text \<open>The decimal numeral of a natural number, as the name of an index is written.\<close>

fun dec :: "nat \<Rightarrow> string" where
  "dec n =
     (if n < 10 then [''0123456789'' ! n] else dec (n div 10) @ [''0123456789'' ! (n mod 10)])"

section \<open>Objects and the heap\<close>

text \<open>
  An object has a prototype, which is an object, a function or \<open>null\<close>, and the list of
  its own data properties in enumeration order, each with its enumerable flag. The
  heap is the list of the objects allocated so far; a new object takes the next
  address, so an address is allocated exactly when it is below the heap's length.
  The host allocates its own objects first: the prototypes that plain objects,
  functions and the wrappers of primitives inherit from stand at the first addresses.
  All data properties are writable. The one accessor modelled is the host's
  \<open>__proto__\<close> of \<open>Object.prototype\<close>; other accessors, and proxies, are outside the
  model.
\<close>

datatype jsprop = Prop (enumerable: bool) (pvalue: jsval)

record jsobj =
  proto :: jsval
  props :: "(string \<times> jsprop) list"

type_synonym heap = "jsobj list"

definition Object_prototype :: addr where "Object_prototype = 0"
definition Function_prototype :: addr where "Function_prototype = 1"
definition String_prototype :: addr where "String_prototype = 2"
definition Number_prototype :: addr where "Number_prototype = 3"
definition Boolean_prototype :: addr where "Boolean_prototype = 4"
definition Symbol_prototype :: addr where "Symbol_prototype = 5"
definition BigInt_prototype :: addr where "BigInt_prototype = 6"

definition alloc :: "jsobj \<Rightarrow> heap \<Rightarrow> addr \<times> heap" where
  "alloc obj h = (length h, h @ [obj])"

text \<open>The object literal \<open>{ k: v, ... }\<close>: a plain object, with enumerable properties.\<close>

definition literal :: "(string \<times> jsval) list \<Rightarrow> jsobj" where
  "literal kvs = \<lparr>proto = JObj Object_prototype, props = map (\<lambda>kv. (fst kv, Prop True (snd kv))) kvs\<rparr>"

text \<open>The own properties of the object at an address (none where nothing is allocated).\<close>

definition object_at :: "heap \<Rightarrow> addr \<Rightarrow> (string \<times> jsprop) list" where
  "object_at h a = (if a < length h then props (h ! a) else [])"

fun ref_of :: "jsval \<Rightarrow> addr option" where
  "ref_of (JObj a) = Some a"
| "ref_of (JFun a) = Some a"
| "ref_of v = None"

text \<open>
  The own properties of a primitive: a string has its length and, under the names of
  its indices, its characters.
\<close>

fun prim_own :: "jsval \<Rightarrow> string \<Rightarrow> jsprop option" where
  "prim_own (JStr s) k =
     (if k = ''length'' then Some (Prop False (JNum (num_of_nat (length s))))
      else case find (\<lambda>i. dec i = k) [0..<length s] of
        Some i \<Rightarrow> Some (Prop True (JStr [s ! i]))
      | None \<Rightarrow> None)"
| "prim_own v k = None"

text \<open>
  The prototype of a value, as \<open>Object.getPrototypeOf\<close> gives it: for a primitive the
  prototype of its wrapper, for an object or a function its own. The prototype of
  \<open>Object.prototype\<close> is \<open>null\<close> and cannot be changed.
\<close>

fun wrapper :: "jsval \<Rightarrow> addr option" where
  "wrapper (JStr s) = Some String_prototype"
| "wrapper (JNum n) = Some Number_prototype"
| "wrapper (JBool b) = Some Boolean_prototype"
| "wrapper (JSymbol n) = Some Symbol_prototype"
| "wrapper (JBigInt i) = Some BigInt_prototype"
| "wrapper v = None"

definition prototype_of :: "heap \<Rightarrow> jsval \<Rightarrow> jsval" where
  "prototype_of h v =
     (case wrapper v of
        Some p \<Rightarrow> JObj p
      | None \<Rightarrow> (case ref_of v of
                   Some a \<Rightarrow> if a \<noteq> Object_prototype \<and> a < length h then proto (h ! a) else JNull
                 | None \<Rightarrow> JNull))"

text \<open>
  What a lookup of a name finds: a data property, the accessor \<open>__proto__\<close>, or
  nothing. The accessor is an own property of \<open>Object.prototype\<close>, not enumerable,
  which a data property of that name on the same object replaces. Its getter returns
  the prototype of the value the read started from.
\<close>

datatype lookup = Found jsprop | ProtoAccessor | Absent

text \<open>The own data property of a name.\<close>

definition own_prop :: "heap \<Rightarrow> jsval \<Rightarrow> string \<Rightarrow> jsprop option" where
  "own_prop h v k =
     (case ref_of v of Some a \<Rightarrow> map_of (object_at h a) k | None \<Rightarrow> prim_own v k)"

definition own_lookup :: "heap \<Rightarrow> jsval \<Rightarrow> string \<Rightarrow> lookup" where
  "own_lookup h v k =
     (case own_prop h v k of
        Some p \<Rightarrow> Found p
      | None \<Rightarrow> if k = ''__proto__'' \<and> ref_of v = Some Object_prototype
                then ProtoAccessor else Absent)"

text \<open>\<open>Object.prototype.hasOwnProperty.call(v, k)\<close>.\<close>

definition hasOwnProperty :: "heap \<Rightarrow> jsval \<Rightarrow> string \<Rightarrow> bool" where
  "hasOwnProperty h v k = (own_lookup h v k \<noteq> Absent)"

text \<open>The value that a read started from \<open>v\<close> gets from what the lookup found.\<close>

fun lookup_value :: "heap \<Rightarrow> jsval \<Rightarrow> lookup \<Rightarrow> jsval" where
  "lookup_value h v (Found p) = pvalue p"
| "lookup_value h v ProtoAccessor = prototype_of h v"
| "lookup_value h v Absent = JUndefined"

text \<open>The value of an own property, \<open>undefined\<close> when there is none.\<close>

definition read_own :: "heap \<Rightarrow> jsval \<Rightarrow> string \<Rightarrow> jsval" where
  "read_own h v k = lookup_value h v (own_lookup h v k)"

text \<open>\<open>Object.keys(v)\<close>: the own enumerable string keys, in enumeration order.\<close>

definition Object_keys :: "heap \<Rightarrow> jsval \<Rightarrow> string list" where
  "Object_keys h v =
     (case ref_of v of
        Some a \<Rightarrow> map fst (filter (\<lambda>kp. enumerable (snd kp)) (object_at h a))
      | None \<Rightarrow> (case v of JStr s \<Rightarrow> map dec [0..<length s] | _ \<Rightarrow> []))"

text \<open>
  The prototype chain of a value: the objects a property read visits, in order. A read
  on a primitive starts at the prototype of its wrapper, a read on an object or a
  function at the object itself, and every chain ends where the prototype is \<open>null\<close>,
  at \<open>Object.prototype\<close> at the latest. The host keeps chains free of cycles, so a
  chain has at most as many objects as the heap; the walk takes that many steps at most.
\<close>

fun proto_chain :: "nat \<Rightarrow> heap \<Rightarrow> jsval \<Rightarrow> addr list" where
  "proto_chain 0 h v = []"
| "proto_chain (Suc n) h v =
     (case ref_of v of
        None \<Rightarrow> []
      | Some a \<Rightarrow> if a < length h then a # proto_chain n h (prototype_of h (JObj a)) else [])"

definition chain :: "heap \<Rightarrow> jsval \<Rightarrow> addr list" where
  "chain h v =
     (case wrapper v of
        Some p \<Rightarrow> proto_chain (length h) h (JObj p)
      | None \<Rightarrow> proto_chain (length h) h v)"

fun find_in_chain :: "heap \<Rightarrow> addr list \<Rightarrow> string \<Rightarrow> lookup" where
  "find_in_chain h [] k = Absent"
| "find_in_chain h (a # as) k =
     (case own_lookup h (JObj a) k of Absent \<Rightarrow> find_in_chain h as k | r \<Rightarrow> r)"

text \<open>What a read of \<open>v[k]\<close> finds: an own property, or the first one on the chain.\<close>

definition find_prop :: "heap \<Rightarrow> jsval \<Rightarrow> string \<Rightarrow> lookup" where
  "find_prop h v k =
     (case prim_own v k of Some p \<Rightarrow> Found p | None \<Rightarrow> find_in_chain h (chain h v) k)"

text \<open>The \<open>in\<close> test: whether a read of \<open>v[k]\<close> finds a property at all.\<close>

definition has_property :: "heap \<Rightarrow> jsval \<Rightarrow> string \<Rightarrow> bool" where
  "has_property h v k = (find_prop h v k \<noteq> Absent)"

text \<open>
  Errors. \<open>InvalidActionShape\<close> is \<open>new Error('Action should be plain object')\<close> and
  \<open>MissingActionType\<close> is \<open>new Error('Action must have a type')\<close>, the two errors
  \<open>dispatch\<close> creates. \<open>TypeError\<close> is the host's own error for a property read on
  \<open>undefined\<close> or \<open>null\<close>, for a call of a value that is not a function and for a
  prototype that would close a cycle. \<open>Thrown e\<close> is anything a callback of the
  caller's threw, passed on as it is.
\<close>

datatype 'e error = InvalidActionShape | MissingActionType | TypeError | Thrown 'e

text \<open>
  The property read \<open>v[k]\<close> (and \<open>v.k\<close>): a \<open>TypeError\<close> on \<open>undefined\<close> and
  \<open>null\<close>, otherwise the value of the data property found, what the getter of
  \<open>__proto__\<close> returns when that is found, and \<open>undefined\<close> when nothing is found.
\<close>

fun get_prop :: "heap \<Rightarrow> jsval \<Rightarrow> string \<Rightarrow> 'e error + jsval" where
  "get_prop h JUndefined k = Inl TypeError"
| "get_prop h JNull k = Inl TypeError"
| "get_prop h v k = Inr (lookup_value h v (find_prop h v k))"

text \<open>
  The assignment \<open>o[k] = v\<close> on the object at an address. Where the name finds the
  accessor \<open>__proto__\<close>, its setter runs and the object gets no property: an object, a
  function or \<open>null\<close> becomes its prototype, which is a \<open>TypeError\<close> where that
  closes a cycle or the object is \<open>Object.prototype\<close>, and any other value is dropped.
  Otherwise an own property of the name takes the value and keeps its place, and where
  there is none, a new enumerable one is added last.
\<close>

fun put_own :: "string \<Rightarrow> jsval \<Rightarrow> (string \<times> jsprop) list \<Rightarrow> (string \<times> jsprop) list" where
  "put_own k v [] = [(k, Prop True v)]"
| "put_own k v (kp # ps) =
     (if fst kp = k then (k, Prop (enumerable (snd kp)) v) # ps else kp # put_own k v ps)"

definition set_prototype :: "heap \<Rightarrow> addr \<Rightarrow> jsval \<Rightarrow> 'e error + heap" where
  "set_prototype h a v =
     (if v = JNull \<or> ref_of v \<noteq> None then
        (if v = prototype_of h (JObj a) then Inr h
         else if a = Object_prototype \<or> a \<in> set (chain h v) then Inl TypeError
         else Inr (h[a := (h ! a)\<lparr>proto := v\<rparr>]))
      else Inr h)"

definition set_prop :: "heap \<Rightarrow> addr \<Rightarrow> string \<Rightarrow> jsval \<Rightarrow> 'e error + heap" where
  "set_prop h a k v =
     (if \<not> a < length h then Inr h
      else if find_prop h (JObj a) k = ProtoAccessor then set_prototype h a v
      else Inr (h[a := (h ! a)\<lparr>props := put_own k v (props (h ! a))\<rparr>]))"

section \<open>The store\<close>

text \<open>
  What \<open>dispatch\<close> does with a function action is to call it with \<open>dispatch\<close> and
  \<open>getState\<close>. A function is therefore modelled by what it does with these two: a tree
  of its calls of \<open>getState\<close> and \<open>dispatch\<close> and of its reads and writes of the heap,
  ending in the value it returns or the error it throws. The continuation of a
  \<open>dispatch\<close> takes an error as well, for a function that catches it. An action is its
  value together with this behaviour, which is looked at only when the value is a
  function.
\<close>

datatype 'e action = Action (avalue: jsval) (abody: "'e thunk")
and 'e thunk =
    TReturn jsval
  | TThrow "'e error"
  | TGetState "jsval \<Rightarrow> 'e thunk"
  | TDispatch "'e action" "'e error + jsval \<Rightarrow> 'e thunk"
  | THeapRead "heap \<Rightarrow> 'e thunk"
  | THeapWrite "heap \<Rightarrow> heap" "'e thunk"

text \<open>
  The calls the store makes into the caller's code are recorded, in order: the reducer
  with the state and the action it was given, a listener with no argument.
\<close>

datatype event = ReducerCall jsval jsval | ListenerCall jsval

text \<open>
  The variables of \<open>createStore\<close> that change (\<open>currentState\<close>, \<open>listeners\<close>), with the
  heap and the record of calls.
\<close>

record world =
  heap :: heap
  currentState :: jsval
  listeners :: "jsval list"
  calls :: "event list"

text \<open>
  What \<open>createStore\<close> closes over and never assigns again: the reducer and the
  middleware argument. A reducer takes the state and the action, may allocate and
  throw. \<open>listener_body f\<close> is what the function object \<open>f\<close> does when it is called with
  no arguments: it may read the current state, change the heap and throw. A listener
  is handed neither \<open>dispatch\<close> nor \<open>subscribe\<close>, and a listener that calls back into
  the store is not modelled.
\<close>

record 'e env =
  rootReducer :: "jsval \<Rightarrow> jsval \<Rightarrow> heap \<Rightarrow> ('e + jsval) \<times> heap"
  middleware :: jsval
  listener_body :: "nat \<Rightarrow> jsval \<Rightarrow> heap \<Rightarrow> ('e + jsval) \<times> heap"

definition getState :: "world \<Rightarrow> jsval" where
  "getState w = currentState w"

text \<open>\<open>listeners.forEach(listener => listener())\<close>: a listener that throws ends the loop.\<close>

fun notify :: "'e env \<Rightarrow> jsval list \<Rightarrow> world \<Rightarrow> ('e error + unit) \<times> world" where
  "notify env [] w = (Inr (), w)"
| "notify env (l # ls) w =
     (case l of
        JFun f \<Rightarrow>
          (case listener_body env f (currentState w) (heap w) of
             (Inl e, h') \<Rightarrow>
               (Inl (Thrown e), w\<lparr>heap := h', calls := calls w @ [ListenerCall l]\<rparr>)
           | (Inr r, h') \<Rightarrow>
               notify env ls (w\<lparr>heap := h', calls := calls w @ [ListenerCall l]\<rparr>))
      | _ \<Rightarrow> (Inl TypeError, w))"

text \<open>The plain path of \<open>dispatch\<close>, after the test for a function action.\<close>

definition dispatch_plain :: "'e env \<Rightarrow> jsval \<Rightarrow> world \<Rightarrow> ('e error + jsval) \<times> world" where
  "dispatch_plain env action w =
     (if typeof action \<noteq> ''object'' then (Inl InvalidActionShape, w)
      else case get_prop (heap w) action ''type'' of
        Inl e \<Rightarrow> (Inl e, w)
      | Inr t \<Rightarrow>
          if typeof t = ''undefined'' then (Inl MissingActionType, w)
          else
            (case rootReducer env (currentState w) action (heap w) of
               (Inl e, h') \<Rightarrow>
                 (Inl (Thrown e),
                  w\<lparr>heap := h', calls := calls w @ [ReducerCall (currentState w) action]\<rparr>)
             | (Inr newState, h') \<Rightarrow>
                 (case notify env (listeners w)
                         (w\<lparr>heap := h', currentState := newState,
                            calls := calls w @ [ReducerCall (currentState w) action]\<rparr>) of
                    (Inl e, w') \<Rightarrow> (Inl e, w')
                  | (Inr u, w') \<Rightarrow> (Inr action, w'))))"

primrec dispatch :: "'e env \<Rightarrow> 'e action \<Rightarrow> world \<Rightarrow> ('e error + jsval) \<times> world"
  and run_thunk :: "'e env \<Rightarrow> 'e thunk \<Rightarrow> world \<Rightarrow> ('e error + jsval) \<times> world"
where
  "dispatch env (Action action body) w =
     (if truthy (middleware env) \<and> typeof action = ''function'' then run_thunk env body w
      else dispatch_plain env action w)"
| "run_thunk env (TReturn v) w = (Inr v, w)"
| "run_thunk env (TThrow e) w = (Inl e, w)"
| "run_thunk env (TGetState k) w = run_thunk env (k (getState w)) w"
| "run_thunk env (TDispatch a k) w =
     (case dispatch env a w of (r, w') \<Rightarrow> run_thunk env (k r) w')"
| "run_thunk env (THeapRead k) w = run_thunk env (k (heap w)) w"
| "run_thunk env (THeapWrite f t) w = run_thunk env t (w\<lparr>heap := f (heap w)\<rparr>)"

text \<open>
  \<open>subscribe\<close> pushes the listener and returns the function \<open>unSubscribe\<close>, which
  closes over the listener and keeps the items that are \<open>!==\<close> to it.
\<close>

definition unSubscribe :: "jsval \<Rightarrow> world \<Rightarrow> world" where
  "unSubscribe listener w =
     w\<lparr>listeners := filter (\<lambda>item. \<not> strict_eq item listener) (listeners w)\<rparr>"

definition subscribe :: "jsval \<Rightarrow> world \<Rightarrow> (world \<Rightarrow> world) \<times> world" where
  "subscribe listener w = (unSubscribe listener, w\<lparr>listeners := listeners w @ [listener]\<rparr>)"

text \<open>
  \<open>createStore(reducer, initialState, middleware)\<close>, in a program whose function objects
  behave as \<open>fs\<close> says and whose heap is \<open>h\<close>. It sets the variables, allocates the
  object \<open>{ type: '@INIT' }\<close>, dispatches it and returns the store, here what the three
  functions of the store close over, with the world it leaves. An error of the first
  dispatch is the error of \<open>createStore\<close>, which then returns no store.
\<close>

definition init_action :: jsobj where
  "init_action = literal [(''type'', JStr ''@INIT'')]"

definition createStore ::
  "(nat \<Rightarrow> jsval \<Rightarrow> heap \<Rightarrow> ('e + jsval) \<times> heap) \<Rightarrow>
   (jsval \<Rightarrow> jsval \<Rightarrow> heap \<Rightarrow> ('e + jsval) \<times> heap) \<Rightarrow> jsval \<Rightarrow> jsval \<Rightarrow> heap \<Rightarrow>
   ('e error + 'e env) \<times> world" where
  "createStore fs reducer initialState mw h =
     (let env = \<lparr>rootReducer = reducer, middleware = mw, listener_body = fs\<rparr>;
          w = \<lparr>heap = h, currentState = initialState, listeners = [], calls = []\<rparr>
      in case alloc init_action (heap w) of
        (a, h1) \<Rightarrow>
          (case dispatch env (Action (JObj a) (TReturn JUndefined)) (w\<lparr>heap := h1\<rparr>) of
             (Inl e, w') \<Rightarrow> (Inl e, w')
           | (Inr r, w') \<Rightarrow> (Inr env, w')))"

section \<open>combineReducers\<close>

text \<open>
  \<open>reducers\<close> is an object whose values are functions: the list of its keys, in the
  order of \<open>Object.keys\<close>, each with the reducer it holds. The loop takes the keys one
  by one: it reads \<open>reducers[item]\<close> and \<open>state[item]\<close>, calls the one with the other
  and the action, and stores the result in \<open>newStore\<close>.
\<close>

fun forEach_item ::
  "(string \<times> (jsval \<Rightarrow> jsval \<Rightarrow> heap \<Rightarrow> ('e + jsval) \<times> heap)) list \<Rightarrow> string list \<Rightarrow>
   jsval \<Rightarrow> jsval \<Rightarrow> addr \<Rightarrow> heap \<Rightarrow> ('e error + unit) \<times> heap" where
  "forEach_item reducers [] state action newStore h = (Inr (), h)"
| "forEach_item reducers (item # items) state action newStore h =
     (case map_of reducers item of
        None \<Rightarrow> (Inl TypeError, h)
      | Some r \<Rightarrow>
          (case get_prop h state item of
             Inl e \<Rightarrow> (Inl e, h)
           | Inr s \<Rightarrow>
               (case r s action h of
                  (Inl e, h') \<Rightarrow> (Inl (Thrown e), h')
                | (Inr v, h') \<Rightarrow>
                    (case set_prop h' newStore item v of
                       Inl e \<Rightarrow> (Inl e, h')
                     | Inr h'' \<Rightarrow> forEach_item reducers items state action newStore h''))))"

definition combineReducers ::
  "(string \<times> (jsval \<Rightarrow> jsval \<Rightarrow> heap \<Rightarrow> ('e + jsval) \<times> heap)) list \<Rightarrow>
   jsval \<Rightarrow> jsval \<Rightarrow> heap \<Rightarrow> ('e error + jsval) \<times> heap" where
  "combineReducers reducers state action h =
     (case alloc (literal []) h of
        (newStore, h1) \<Rightarrow>
          (case forEach_item reducers (map fst reducers) state action newStore h1 of
             (Inl e, h') \<Rightarrow> (Inl e, h')
           | (Inr u, h') \<Rightarrow> (Inr (JObj newStore), h')))"

section \<open>shallowEqual\<close>

text \<open>The loop over \<open>keysA\<close>: it returns false at the first key that fails.\<close>

fun keys_loop :: "heap \<Rightarrow> jsval \<Rightarrow> jsval \<Rightarrow> string list \<Rightarrow> 'e error + bool" where
  "keys_loop h objA objB [] = Inr True"
| "keys_loop h objA objB (k # ks) =
     (if \<not> hasOwnProperty h objB k then Inr False
      else case get_prop h objA k of
        Inl e \<Rightarrow> Inl e
      | Inr x \<Rightarrow>
          (case get_prop h objB k of
             Inl e \<Rightarrow> Inl e
           | Inr y \<Rightarrow> if \<not> Object_is x y then Inr False else keys_loop h objA objB ks))"

definition shallowEqual :: "heap \<Rightarrow> jsval \<Rightarrow> jsval \<Rightarrow> 'e error + bool" where
  "shallowEqual h objA objB =
     (if Object_is objA objB then Inr True
      else if typeof objA \<noteq> ''object'' \<or> objA = JNull \<or> typeof objB \<noteq> ''object'' \<or> objB = JNull
        then Inr False
      else if length (Object_keys h objA) \<noteq> length (Object_keys h objB) then Inr False
      else keys_loop h objA objB (Object_keys h objA))"

section \<open>Using a store\<close>

text \<open>
  A caller holds the three functions of the store and the handles \<open>subscribe\<close> has
  returned to it. One step of a caller: a dispatch, a \<open>getState\<close>, a \<open>subscribe\<close>, or
  a call of the \<open>n\<close>-th handle it was given (nothing, when it holds no such handle).
  Each step is seen by what it returns or throws.
\<close>

datatype 'e op = OpDispatch "'e action" | OpGetState | OpSubscribe jsval | OpUnsubscribe nat

datatype 'e seen = Returned jsval | Raised "'e error" | Handle

fun run_ops ::
  "'e env \<Rightarrow> 'e op list \<Rightarrow> (world \<Rightarrow> world) list \<Rightarrow> world \<Rightarrow> 'e seen list \<times> world" where
  "run_ops env [] hs w = ([], w)"
| "run_ops env (OpDispatch a # ops) hs w =
     (case dispatch env a w of
        (r, w') \<Rightarrow>
          (case run_ops env ops hs w' of
             (os, w'') \<Rightarrow> ((case r of Inl e \<Rightarrow> Raised e | Inr v \<Rightarrow> Returned v) # os, w'')))"
| "run_ops env (OpGetState # ops) hs w =
     (case run_ops env ops hs w of (os, w') \<Rightarrow> (Returned (getState w) # os, w'))"
| "run_ops env (OpSubscribe l # ops) hs w =
     (case subscribe l w of
        (u, w') \<Rightarrow> (case run_ops env ops (hs @ [u]) w' of (os, w'') \<Rightarrow> (Handle # os, w'')))"
| "run_ops env (OpUnsubscribe n # ops) hs w =
     (case run_ops env ops hs (if n < length hs then (hs ! n) w else w) of
        (os, w') \<Rightarrow> (Returned JUndefined # os, w'))"

text \<open>A store is made and then used: what the caller sees, and the world at the end.\<close>

definition session ::
  "(nat \<Rightarrow> jsval \<Rightarrow> heap \<Rightarrow> ('e + jsval) \<times> heap) \<Rightarrow>
   (jsval \<Rightarrow> jsval \<Rightarrow> heap \<Rightarrow> ('e + jsval) \<times> heap) \<Rightarrow> jsval \<Rightarrow> jsval \<Rightarrow> heap \<Rightarrow>
   'e op list \<Rightarrow> ('e error + 'e seen list) \<times> world" where
  "session fs reducer initialState mw h ops =
     (case createStore fs reducer initialState mw h of
        (Inl e, w) \<Rightarrow> (Inl e, w)
      | (Inr env, w) \<Rightarrow> (case run_ops env ops [] w of (os, w') \<Rightarrow> (Inr os, w')))"

section \<open>What the callbacks do\<close>

text \<open>
  The listeners of a list are called in turn, with no arguments, while the store holds
  the state \<open>s\<close>, each in the heap that the one before has left: \<open>listeners_run\<close> is
  the heap after the last, when each of them is a function and has returned.
\<close>

definition call_returns :: "'e env \<Rightarrow> jsval \<Rightarrow> jsval \<Rightarrow> heap option \<Rightarrow> heap option" where
  "call_returns env s l before =
     (case (before, l) of
        (Some h, JFun f) \<Rightarrow> (case listener_body env f s h of (Inr r, h') \<Rightarrow> Some h' | _ \<Rightarrow> None)
      | _ \<Rightarrow> None)"

definition listeners_run :: "'e env \<Rightarrow> jsval \<Rightarrow> jsval list \<Rightarrow> heap \<Rightarrow> heap option" where
  "listeners_run env s ls h = fold (call_returns env s) ls (Some h)"


text \<open>A function that calls \<open>dispatch\<close> on no path.\<close>

primrec no_dispatch :: "'e thunk \<Rightarrow> bool" where
  "no_dispatch (TReturn v) = True"
| "no_dispatch (TThrow e) = True"
| "no_dispatch (TGetState k) = (\<forall>s. no_dispatch (k s))"
| "no_dispatch (TDispatch a k) = False"
| "no_dispatch (THeapRead k) = (\<forall>h. no_dispatch (k h))"
| "no_dispatch (THeapWrite f t) = no_dispatch t"

section \<open>A small program\<close>

text \<open>
  The inputs at which the theorems below are instantiated. The host's objects come
  first: \<open>Object.prototype\<close>, whose \<open>constructor\<close> is the function \<open>Object\<close> at
  address 7, then the prototypes of functions and of the wrappers.
\<close>

definition ex_realm :: heap where
  "ex_realm =
     [\<lparr>proto = JNull, props = [(''constructor'', Prop False (JFun 7))]\<rparr>,
      \<lparr>proto = JObj 0, props = []\<rparr>,
      \<lparr>proto = JObj 0, props = []\<rparr>,
      \<lparr>proto = JObj 0, props = []\<rparr>,
      \<lparr>proto = JObj 0, props = []\<rparr>,
      \<lparr>proto = JObj 0, props = []\<rparr>,
      \<lparr>proto = JObj 0, props = []\<rparr>,
      \<lparr>proto = JObj 1, props = [(''prototype'', Prop False (JObj 0))]\<rparr>]"

text \<open>
  The program's heap holds the action \<open>{ type: 'TOGGLE' }\<close> at address 8, the empty
  object at address 9, the state \<open>{ on: false }\<close> at address 10, five functions at
  the addresses 11 to 15 and, at address 16, an object without properties whose
  prototype is the action at address 8.
\<close>

definition ex_function :: jsobj where
  "ex_function = \<lparr>proto = JObj Function_prototype, props = []\<rparr>"

definition ex_heap :: heap where
  "ex_heap = ex_realm @
     [literal [(''type'', JStr ''TOGGLE'')], literal [], literal [(''on'', JBool False)],
      ex_function, ex_function, ex_function, ex_function, ex_function,
      \<lparr>proto = JObj 8, props = []\<rparr>]"

text \<open>
  The reducer \<open>(state = false, action) => action.type === 'TOGGLE' ? !state : state\<close>;
  it throws where the read of \<open>type\<close> does.
\<close>

definition ex_reducer :: "jsval \<Rightarrow> jsval \<Rightarrow> heap \<Rightarrow> (unit + jsval) \<times> heap" where
  "ex_reducer state action h =
     (let state = (if state = JUndefined then JBool False else state)
      in case (get_prop h action ''type'' :: unit error + jsval) of
        Inl e \<Rightarrow> (Inl (), h)
      | Inr t \<Rightarrow>
          if strict_eq t (JStr ''TOGGLE'') then (Inr (JBool (\<not> truthy state)), h)
          else (Inr state, h))"

text \<open>
  Every function of the program, called with no arguments, notes which function it is
  and the state it finds in the store, in a new object, and returns \<open>undefined\<close>.
\<close>

definition ex_fs :: "nat \<Rightarrow> jsval \<Rightarrow> heap \<Rightarrow> (unit + jsval) \<times> heap" where
  "ex_fs f state h = (Inr JUndefined, h @ [literal [(''listener'', JFun f), (''found'', state)]])"

definition ex_env :: "jsval \<Rightarrow> unit env" where
  "ex_env mw = \<lparr>rootReducer = ex_reducer, middleware = mw, listener_body = ex_fs\<rparr>"

definition ex_world :: world where
  "ex_world = \<lparr>heap = ex_heap, currentState = JBool False, listeners = [JFun 11, JFun 12],
     calls = []\<rparr>"

text \<open>The function \<open>(dispatch, getState) => { dispatch({ type: 'TOGGLE' }) }\<close>.\<close>

definition ex_thunk :: "unit thunk" where
  "ex_thunk =
     THeapRead (\<lambda>h. THeapWrite (\<lambda>g. g @ [literal [(''type'', JStr ''TOGGLE'')]])
       (TDispatch (Action (JObj (length h)) (TReturn JUndefined)) (\<lambda>r. case r of
          Inl e \<Rightarrow> TThrow e | Inr v \<Rightarrow> TReturn JUndefined)))"

text \<open>The function \<open>(dispatch, getState) => getState()\<close>.\<close>

definition ex_reader :: "unit thunk" where
  "ex_reader = TGetState (\<lambda>s. TReturn s)"

text \<open>
  Two objects with the same two properties, written in a different order, whose values
  are identical: the same array \<open>['milk']\<close> at address 10 and the number 5.
\<close>

definition ex_props :: heap where
  "ex_props = ex_realm @
     [literal [(''todos'', JObj 10), (''count'', JNum 0x4014000000000000)],
      literal [(''count'', JNum 0x4014000000000000), (''todos'', JObj 10)],
      \<lparr>proto = JNull, props = [(''0'', Prop True (JStr ''milk'')),
         (''length'', Prop False (JNum 0x3FF0000000000000))]\<rparr>]"


text \<open>A caller's steps on a new store, with a function action among them.\<close>

definition ex_ops :: "unit op list" where
  "ex_ops = [OpSubscribe (JFun 13), OpDispatch (Action (JFun 14) ex_thunk), OpGetState,
     OpUnsubscribe 0, OpDispatch (Action (JObj 8) (TReturn JUndefined)), OpGetState]"

lemmas ex_defs = ex_env_def ex_world_def ex_heap_def ex_realm_def ex_function_def ex_reducer_def
  ex_fs_def literal_def Object_prototype_def Function_prototype_def

lemmas read_defs = find_prop_def chain_def object_at_def own_lookup_def own_prop_def
  prototype_of_def read_own_def hasOwnProperty_def has_property_def Object_keys_def

section \<open>Values and property reads\<close>

lemma typeof_object_iff: "typeof v = ''object'' \<longleftrightarrow> v = JNull \<or> (\<exists>a. v = JObj a)"
  by (cases v) simp_all

lemma typeof_undefined_iff: "typeof v = ''undefined'' \<longleftrightarrow> v = JUndefined"
  by (cases v) simp_all

lemma get_prop_error: "get_prop h v k = Inl e \<Longrightarrow> e = TypeError"
  by (cases v) auto

lemma get_prop_undefined_object:
  "typeof v = ''object'' \<Longrightarrow> get_prop h v k = Inr t \<Longrightarrow> \<exists>a. v = JObj a"
  by (cases v) simp_all


text \<open>A read of an own property of an object finds that property.\<close>

lemma find_prop_own_lookup:
  assumes "a < length h" and "own_lookup h (JObj a) k \<noteq> Absent"
  shows "find_prop h (JObj a) k = own_lookup h (JObj a) k"
proof -
  from assms(1) obtain n where n: "length h = Suc n"
    by (cases "length h") auto
  from assms show ?thesis
    by (cases "own_lookup h (JObj a) k") (simp_all add: find_prop_def chain_def n)
qed

lemma own_prop_allocated: "own_prop h (JObj a) k = Some p \<Longrightarrow> a < length h"
  by (auto simp: own_prop_def object_at_def split: if_splits)

lemma find_prop_own:
  assumes "own_prop h (JObj a) k = Some p"
  shows "find_prop h (JObj a) k = Found p"
  using find_prop_own_lookup [of a h k] own_prop_allocated [OF assms] assms
  by (simp add: own_lookup_def)

lemma get_prop_own:
  "own_prop h (JObj a) k = Some p \<Longrightarrow> get_prop h (JObj a) k = Inr (pvalue p)"
  by (simp add: find_prop_own)



lemma get_prop_has_own:
  assumes "hasOwnProperty h (JObj a) k" and "h \<noteq> []"
  shows "get_prop h (JObj a) k = Inr (read_own h (JObj a) k)"
proof -
  have a: "a < length h"
  proof (cases "own_prop h (JObj a) k")
    case None
    with assms(1) have "a = Object_prototype"
      by (simp add: hasOwnProperty_def own_lookup_def split: if_splits)
    with assms(2) show ?thesis
      by (simp add: Object_prototype_def)
  next
    case (Some p)
    then show ?thesis
      by (rule own_prop_allocated)
  qed
  from assms(1) have "own_lookup h (JObj a) k \<noteq> Absent"
    by (simp add: hasOwnProperty_def)
  from find_prop_own_lookup [OF a this] show ?thesis
    by (simp add: read_own_def)
qed

lemma notify_runs:
  "listeners_run env (currentState w) ls (heap w) = Some h' \<Longrightarrow>
   notify env ls w = (Inr (), w\<lparr>heap := h', calls := calls w @ map ListenerCall ls\<rparr>)"
proof (induction ls arbitrary: w)
  case Nil
  then show ?case by (simp add: listeners_run_def)
next
  case (Cons l ls)
  from Cons.prems have f: "fold (call_returns env (currentState w)) ls
      (call_returns env (currentState w) l (Some (heap w))) = Some h'"
    by (simp add: listeners_run_def)
  have not_none: "fold (call_returns env s) xs None = None" for s xs
    by (induction xs) (simp_all add: call_returns_def)
  from f not_none obtain h1 where c: "call_returns env (currentState w) l (Some (heap w)) = Some h1"
    by (cases "call_returns env (currentState w) l (Some (heap w))") auto
  then obtain fn r where l: "l = JFun fn"
    and b: "listener_body env fn (currentState w) (heap w) = (Inr r, h1)"
    by (auto simp: call_returns_def split: jsval.splits prod.splits sum.splits)
  let ?w1 = "w\<lparr>heap := h1, calls := calls w @ [ListenerCall l]\<rparr>"
  from f c have "listeners_run env (currentState ?w1) ls (heap ?w1) = Some h'"
    by (simp add: listeners_run_def)
  from Cons.IH [OF this] l b show ?case by simp
qed

lemma notify_error:
  "notify env ls w = (Inl e, w') \<Longrightarrow> e = TypeError \<or> (\<exists>x. e = Thrown x)"
proof (induction ls arbitrary: w)
  case Nil
  then show ?case by simp
next
  case (Cons l ls)
  then show ?case
    by (cases l) (auto split: prod.splits sum.splits)
qed

section \<open>Dispatching\<close>

text \<open>
  The three outcomes of the plain path that come from \<open>dispatch\<close>'s own checks.
\<close>

lemma dispatch_plain_invalid:
  "fst (dispatch_plain env v w) = Inl InvalidActionShape \<longleftrightarrow> typeof v \<noteq> ''object''"
  by (auto simp: dispatch_plain_def simp del: get_prop.simps
      split: sum.splits prod.splits dest: get_prop_error notify_error)

lemma dispatch_plain_missing:
  "fst (dispatch_plain env v w) = Inl MissingActionType \<longleftrightarrow>
     (\<exists>a. v = JObj a) \<and> get_prop (heap w) v ''type'' = (Inr JUndefined :: 'e error + jsval)"
  for env :: "'e env"
  by (auto simp: dispatch_plain_def typeof_undefined_iff simp del: get_prop.simps
      split: sum.splits prod.splits dest: get_prop_error notify_error get_prop_undefined_object)

lemma dispatch_plain_unchanged:
  "fst (dispatch_plain env v w) = Inl InvalidActionShape \<or>
   fst (dispatch_plain env v w) = Inl MissingActionType \<Longrightarrow> snd (dispatch_plain env v w) = w"
  by (auto simp: dispatch_plain_def simp del: get_prop.simps
      split: sum.splits prod.splits if_splits dest: get_prop_error notify_error)

text \<open>
  The plain path when nothing throws: the world it leaves is the one it was given with
  the new state, the heap as the last listener left it, and the calls added.
\<close>

lemma dispatch_plain_returns:
  fixes env :: "'e env"
  assumes "get_prop (heap w) (JObj a) ''type'' = (Inr t :: 'e error + jsval)"
    and "typeof t \<noteq> ''undefined''"
    and "rootReducer env (currentState w) (JObj a) (heap w) = (Inr newState, h1)"
    and "listeners_run env newState (listeners w) h1 = Some h2"
  shows "dispatch_plain env (JObj a) w =
           (Inr (JObj a),
            w\<lparr>heap := h2, currentState := newState,
              calls := calls w @ ReducerCall (currentState w) (JObj a) #
                map ListenerCall (listeners w)\<rparr>)"
proof -
  let ?w1 = "w\<lparr>heap := h1, currentState := newState,
               calls := calls w @ [ReducerCall (currentState w) (JObj a)]\<rparr>"
  from assms(4) have "listeners_run env (currentState ?w1) (listeners w) (heap ?w1) = Some h2"
    by simp
  from notify_runs [OF this] have
    n: "notify env (listeners w) ?w1 =
      (Inr (), ?w1\<lparr>heap := h2, calls := calls ?w1 @ map ListenerCall (listeners w)\<rparr>)" .
  from assms(1) have g: "get_prop (heap w) (JObj a) ''type'' = (Inr t :: 'e error + jsval)" .
  show ?thesis
    using assms(2,3) g n
    by (simp add: dispatch_plain_def del: get_prop.simps)
qed

lemma ex_type: "get_prop ex_heap (JObj 8) ''type'' = Inr (JStr ''TOGGLE'')"
  by (simp add: ex_defs read_defs)

lemma ex_reduce:
  "ex_reducer (JBool False) (JObj 8) ex_heap = (Inr (JBool True), ex_heap)"
  by (simp add: ex_reducer_def ex_type del: get_prop.simps)

lemma ex_inherited_type: "get_prop ex_heap (JObj 16) ''type'' = Inr (JStr ''TOGGLE'')"
  by (simp add: ex_defs read_defs)

lemma ex_no_type: "get_prop ex_heap (JObj 9) ''type'' = Inr JUndefined"
  by (simp add: ex_defs read_defs)

text \<open>
  Claim C1. An action that is an object whose \<open>type\<close> reads as something defined is
  dispatched to a store whose reducer returns \<open>newState\<close> and the heap \<open>h1\<close> for the
  current state and the action. Each listener of the list, in the order of the list,
  which is the order of subscription, is then called with no arguments while the store
  holds \<open>newState\<close>, the first in \<open>h1\<close> and each next one in the heap the one before
  has left; they are functions and return, the last leaving \<open>h2\<close>. Then \<open>dispatch\<close>
  returns the action itself, and the world it leaves is fixed in full: the state is
  \<open>newState\<close>, which \<open>getState\<close> returns, the heap is \<open>h2\<close>, the list of listeners
  is as it was, and the calls made are the reducer's, with the state before and the
  action, followed by one call of each listener in order.
\<close>

theorem dispatch_plain_action:
  fixes env :: "'e env"
  assumes "get_prop (heap w) (JObj a) ''type'' = (Inr t :: 'e error + jsval)"
    and "typeof t \<noteq> ''undefined''"
    and "rootReducer env (currentState w) (JObj a) (heap w) = (Inr newState, h1)"
    and "listeners_run env newState (listeners w) h1 = Some h2"
  shows "dispatch env (Action (JObj a) body) w =
           (Inr (JObj a),
            w\<lparr>heap := h2, currentState := newState,
              calls := calls w @ ReducerCall (currentState w) (JObj a) #
                map ListenerCall (listeners w)\<rparr>) \<and>
         getState (snd (dispatch env (Action (JObj a) body) w)) = newState"
proof -
  have "dispatch env (Action (JObj a) body) w = dispatch_plain env (JObj a) w"
    by simp
  with dispatch_plain_returns [OF assms] show ?thesis
    by (simp add: getState_def)
qed

text \<open>
  The theorem at the store of the small program, with two listeners: the action
  \<open>{ type: 'TOGGLE' }\<close> turns the state \<open>false\<close> into \<open>true\<close>, and each listener has
  found \<open>true\<close> in the store.
\<close>

theorem dispatch_plain_action_witness:
  "dispatch (ex_env JUndefined) (Action (JObj 8) (TReturn JUndefined)) ex_world =
     (Inr (JObj 8),
      \<lparr>heap = ex_heap @ [literal [(''listener'', JFun 11), (''found'', JBool True)],
                         literal [(''listener'', JFun 12), (''found'', JBool True)]],
       currentState = JBool True, listeners = [JFun 11, JFun 12],
       calls = [ReducerCall (JBool False) (JObj 8), ListenerCall (JFun 11), ListenerCall (JFun 12)]\<rparr>)"
proof -
  have h1: "get_prop (heap ex_world) (JObj 8) ''type'' = (Inr (JStr ''TOGGLE'') :: unit error + jsval)"
    by (simp add: ex_world_def ex_type del: get_prop.simps)
  have h2: "typeof (JStr ''TOGGLE'') \<noteq> ''undefined''" by simp
  have h3: "rootReducer (ex_env JUndefined) (currentState ex_world) (JObj 8) (heap ex_world) =
      (Inr (JBool True), ex_heap)"
    by (simp add: ex_env_def ex_world_def ex_reduce)
  have h4: "listeners_run (ex_env JUndefined) (JBool True) (listeners ex_world) ex_heap =
      Some (ex_heap @ [literal [(''listener'', JFun 11), (''found'', JBool True)],
                       literal [(''listener'', JFun 12), (''found'', JBool True)]])"
    by (simp add: listeners_run_def call_returns_def ex_env_def ex_world_def ex_fs_def)
  from dispatch_plain_action [OF h1 h2 h3 h4, of "TReturn JUndefined"] show ?thesis
    by (simp add: ex_world_def)
qed

text \<open>
  Claim C2, as it is stated, fails: a store made without middleware raises
  \<open>InvalidActionShape\<close> for an action that is a function.
\<close>

theorem dispatch_function_without_middleware:
  "typeof (JFun 14) = ''function'' \<and>
   fst (dispatch (ex_env JUndefined) (Action (JFun 14) ex_thunk) ex_world) = Inl InvalidActionShape"
  by (simp add: ex_env_def dispatch_plain_def)

text \<open>
  Claim C2, amended. When the action is not taken by the function path (no truthy
  middleware was given, or the action is not a function), \<open>dispatch\<close> raises
  \<open>InvalidActionShape\<close> exactly when \<open>typeof action\<close> is not \<open>'object'\<close>, which
  includes a function, and it raises \<open>MissingActionType\<close> exactly when the action is
  an object whose \<open>type\<close>, read as the host reads a property, own or inherited, is
  \<open>undefined\<close>. In both cases the world is left as it was: the state, the
  listeners, the heap, and no call was made.
\<close>

theorem dispatch_errors:
  fixes env :: "'e env"
  assumes "\<not> (truthy (middleware env) \<and> typeof v = ''function'')"
  shows "(fst (dispatch env (Action v body) w) = Inl InvalidActionShape \<longleftrightarrow>
            typeof v \<noteq> ''object'') \<and>
         (fst (dispatch env (Action v body) w) = Inl MissingActionType \<longleftrightarrow>
            (\<exists>a. v = JObj a) \<and>
            get_prop (heap w) v ''type'' = (Inr JUndefined :: 'e error + jsval)) \<and>
         (fst (dispatch env (Action v body) w) = Inl InvalidActionShape \<or>
          fst (dispatch env (Action v body) w) = Inl MissingActionType \<longrightarrow>
            snd (dispatch env (Action v body) w) = w)"
proof -
  from assms have d: "dispatch env (Action v body) w = dispatch_plain env v w" by auto
  show ?thesis
    unfolding d
    using dispatch_plain_invalid [of env v w] dispatch_plain_missing [of env v w]
      dispatch_plain_unchanged [of env v w]
    by blast
qed

text \<open>
  The theorem at the empty object \<open>{}\<close> and at an object that inherits its \<open>type\<close>
  from its prototype, dispatched to a store without middleware.
\<close>

theorem dispatch_errors_witness:
  "fst (dispatch (ex_env JUndefined) (Action (JObj 9) (TReturn JUndefined)) ex_world) =
     Inl MissingActionType \<and>
   snd (dispatch (ex_env JUndefined) (Action (JObj 9) (TReturn JUndefined)) ex_world) = ex_world \<and>
   fst (dispatch (ex_env JUndefined) (Action (JObj 16) (TReturn JUndefined)) ex_world) \<noteq>
     Inl MissingActionType"
proof -
  have h9: "\<not> (truthy (middleware (ex_env JUndefined)) \<and> typeof (JObj 9) = ''function'')"
    and h16: "\<not> (truthy (middleware (ex_env JUndefined)) \<and> typeof (JObj 16) = ''function'')"
    by simp_all
  have g9: "get_prop (heap ex_world) (JObj 9) ''type'' = (Inr JUndefined :: unit error + jsval)"
    by (simp add: ex_world_def ex_no_type del: get_prop.simps)
  have g16: "get_prop (heap ex_world) (JObj 16) ''type'' \<noteq> (Inr JUndefined :: unit error + jsval)"
    by (simp add: ex_world_def ex_inherited_type del: get_prop.simps)
  from dispatch_errors [OF h9, of "TReturn JUndefined" ex_world]
    dispatch_errors [OF h16, of "TReturn JUndefined" ex_world] g9 g16
  show ?thesis
    by blast
qed

text \<open>
  Claim C9. \<open>typeof null\<close> is \<open>'object'\<close>, so \<open>null\<close> passes the check of the shape,
  with or without middleware, and the read of \<open>type\<close> raises the host's \<open>TypeError\<close>,
  which is neither of the two errors of \<open>dispatch\<close>. Nothing has changed by then and
  no call was made.
\<close>

theorem dispatch_null:
  "dispatch env (Action JNull body) w = (Inl TypeError, w)"
  by (simp add: dispatch_plain_def)

text \<open>The theorem at a store with middleware.\<close>

theorem dispatch_null_witness:
  "dispatch (ex_env (JBool True)) (Action JNull ex_thunk) ex_world = (Inl TypeError, ex_world) \<and>
   typeof JNull = ''object''"
  using dispatch_null [of "ex_env (JBool True)" ex_thunk ex_world] by simp

text \<open>A function that does not dispatch changes the heap at most.\<close>

lemma run_thunk_no_dispatch:
  fixes a :: "'e action" and t :: "'e thunk"
  shows "avalue a = avalue a"
    and "no_dispatch t \<Longrightarrow>
      currentState (snd (run_thunk env t w)) = currentState w \<and>
      listeners (snd (run_thunk env t w)) = listeners w \<and>
      calls (snd (run_thunk env t w)) = calls w"
  by (induction a and t arbitrary: and w) simp_all

text \<open>
  Claim C5. With a truthy middleware, dispatching a function is calling it with the
  store's \<open>dispatch\<close> and \<open>getState\<close>, step by step: what the function returns is
  what \<open>dispatch\<close> returns, and the world is as the function left it; what it throws
  is thrown by \<open>dispatch\<close>; its call of \<open>getState\<close> gives it the state the store
  holds at that moment; its call of \<open>dispatch\<close> is a dispatch to the same store, of
  which it gets the result or the error, and it goes on in the world that dispatch
  has left; its reads and writes of the heap are those of the world's heap. The
  reducer and the listeners are called by these inner dispatches only: a function
  that calls \<open>dispatch\<close> on no path leaves the state, the listeners and the calls as
  they were.
\<close>

theorem dispatch_function_action:
  assumes "truthy (middleware env)"
  shows "dispatch env (Action (JFun f) (TReturn v)) w = (Inr v, w) \<and>
         dispatch env (Action (JFun f) (TThrow e)) w = (Inl e, w) \<and>
         dispatch env (Action (JFun f) (TGetState k)) w =
           dispatch env (Action (JFun f) (k (getState w))) w \<and>
         dispatch env (Action (JFun f) (TDispatch a d)) w =
           dispatch env (Action (JFun f) (d (fst (dispatch env a w)))) (snd (dispatch env a w)) \<and>
         dispatch env (Action (JFun f) (THeapRead r)) w =
           dispatch env (Action (JFun f) (r (heap w))) w \<and>
         dispatch env (Action (JFun f) (THeapWrite u t)) w =
           dispatch env (Action (JFun f) t) (w\<lparr>heap := u (heap w)\<rparr>) \<and>
         (no_dispatch body \<longrightarrow>
            currentState (snd (dispatch env (Action (JFun f) body) w)) = currentState w \<and>
            listeners (snd (dispatch env (Action (JFun f) body) w)) = listeners w \<and>
            calls (snd (dispatch env (Action (JFun f) body) w)) = calls w)"
  using assms run_thunk_no_dispatch(2) [of body env w]
  by (simp add: case_prod_unfold)

text \<open>
  The theorem at the function \<open>(dispatch, getState) => getState()\<close>, which returns the
  state and changes nothing, and at the function
  \<open>(dispatch, getState) => { dispatch({ type: 'TOGGLE' }) }\<close>: the reducer is called
  once, with the action the function dispatched.
\<close>

theorem dispatch_function_action_witness:
  "truthy (middleware (ex_env (JFun 15))) \<and>
   dispatch (ex_env (JFun 15)) (Action (JFun 14) ex_reader) ex_world = (Inr (JBool False), ex_world) \<and>
   dispatch (ex_env (JFun 15)) (Action (JFun 14) ex_thunk) ex_world =
     (Inr JUndefined,
      \<lparr>heap = ex_heap @ [literal [(''type'', JStr ''TOGGLE'')],
                         literal [(''listener'', JFun 11), (''found'', JBool True)],
                         literal [(''listener'', JFun 12), (''found'', JBool True)]],
       currentState = JBool True, listeners = [JFun 11, JFun 12],
       calls = [ReducerCall (JBool False) (JObj 17), ListenerCall (JFun 11),
                ListenerCall (JFun 12)]\<rparr>)"
proof -
  have h: "truthy (middleware (ex_env (JFun 15)))" by (simp add: ex_env_def)
  have len: "length ex_heap = 17" by (simp add: ex_heap_def ex_realm_def)
  let ?h1 = "ex_heap @ [literal [(''type'', JStr ''TOGGLE'')]]"
  let ?w1 = "\<lparr>heap = ?h1, currentState = JBool False, listeners = [JFun 11, JFun 12],
      calls = []\<rparr>"
  have ty: "get_prop ?h1 (JObj 17) ''type'' = (Inr (JStr ''TOGGLE'') :: unit error + jsval)"
    by (simp add: ex_defs read_defs)
  have inner: "dispatch_plain (ex_env (JFun 15)) (JObj 17) ?w1 =
    (Inr (JObj 17),
      \<lparr>heap = ?h1 @ [literal [(''listener'', JFun 11), (''found'', JBool True)],
                      literal [(''listener'', JFun 12), (''found'', JBool True)]],
       currentState = JBool True, listeners = [JFun 11, JFun 12],
       calls = [ReducerCall (JBool False) (JObj 17), ListenerCall (JFun 11),
                ListenerCall (JFun 12)]\<rparr>)"
    using ty
    by (simp add: dispatch_plain_def ex_env_def ex_reducer_def ex_fs_def del: get_prop.simps)
  from dispatch_function_action [OF h, of 14 _ ex_world] have
    reader: "dispatch (ex_env (JFun 15)) (Action (JFun 14) ex_reader) ex_world =
      (Inr (JBool False), ex_world)"
    by (simp add: ex_reader_def getState_def ex_world_def)
  have thunk: "dispatch (ex_env (JFun 15)) (Action (JFun 14) ex_thunk) ex_world =
     (Inr JUndefined,
      \<lparr>heap = ex_heap @ [literal [(''type'', JStr ''TOGGLE'')],
                         literal [(''listener'', JFun 11), (''found'', JBool True)],
                         literal [(''listener'', JFun 12), (''found'', JBool True)]],
       currentState = JBool True, listeners = [JFun 11, JFun 12],
       calls = [ReducerCall (JBool False) (JObj 17), ListenerCall (JFun 11),
                ListenerCall (JFun 12)]\<rparr>)"
    using h by (simp add: ex_thunk_def ex_world_def len inner)
  from h reader thunk show ?thesis by simp
qed

section \<open>The combined reducer\<close>

text \<open>
  Reads and assignments at the small program: an inherited property, the length and a
  character of a string, and the name \<open>__proto__\<close>, which is an own property of
  \<open>Object.prototype\<close> only, reads as the prototype and, assigned to, changes the
  prototype or nothing.
\<close>

lemma ex_reads:
  "get_prop ex_heap (JObj 9) ''constructor'' = Inr (JFun 7)"
  "get_prop ex_heap (JStr ''ab'') ''length'' = Inr (JNum 0x4000000000000000)"
  "get_prop ex_heap (JStr ''ab'') ''1'' = Inr (JStr ''b'')"
  "get_prop ex_heap (JObj 16) ''__proto__'' = Inr (JObj 8)"
  "get_prop ex_heap (JObj 0) ''__proto__'' = Inr JNull"
  "hasOwnProperty ex_heap (JObj 0) ''__proto__'' \<and> \<not> hasOwnProperty ex_heap (JObj 16) ''__proto__''"
  "set_prop ex_heap 9 ''__proto__'' (JObj 10) = Inr (ex_heap[9 := \<lparr>proto = JObj 10, props = []\<rparr>])"
  "set_prop ex_heap 9 ''__proto__'' (JBool True) = Inr ex_heap"
  by (simp_all add: ex_defs read_defs set_prop_def set_prototype_def String_prototype_def
      num_of_nat_def)






text \<open>
  A state that is \<open>undefined\<close> or \<open>null\<close> has no properties to read: with at least one
  slice the combined reducer raises a \<open>TypeError\<close> before any reducer is called.
\<close>

lemma combineReducers_nullish:
  assumes "reducers \<noteq> []" "state = JUndefined \<or> state = JNull"
  shows "combineReducers reducers state action h = (Inl TypeError, h @ [literal []])"
proof -
  from assms(1) obtain n r rest where "reducers = (n, r) # rest"
    by (cases reducers) auto
  with assms(2) show ?thesis
    by (auto simp: combineReducers_def alloc_def)
qed







section \<open>A new store\<close>

text \<open>
  Claim C4. When the reducer returns \<open>s1\<close> for the initial state and the action
  \<open>{ type: '@INIT' }\<close>, \<open>createStore\<close> returns a store whose state is \<open>s1\<close>, whatever
  the middleware is. The one call made by then is the reducer's, with the initial
  state and that action, so the action went through the plain path once; no listener
  is subscribed yet.
\<close>

theorem createStore_init:
  fixes reducer :: "jsval \<Rightarrow> jsval \<Rightarrow> heap \<Rightarrow> ('e + jsval) \<times> heap"
  assumes "reducer initialState (JObj (length h)) (h @ [init_action]) = (Inr s1, h1)"
  shows "\<exists>env w. createStore fs reducer initialState mw h = (Inr env, w) \<and>
           rootReducer env = reducer \<and> middleware env = mw \<and>
           getState w = s1 \<and>
           calls w = [ReducerCall initialState (JObj (length h))] \<and>
           read_own (h @ [init_action]) (JObj (length h)) ''type'' = JStr ''@INIT'' \<and>
           heap w = h1 \<and> listeners w = []"
proof -
  have own: "own_prop (h @ [init_action]) (JObj (length h)) ''type'' = Some (Prop True (JStr ''@INIT''))"
    by (simp add: own_prop_def object_at_def init_action_def literal_def)
  from get_prop_own [OF own] have
    g: "get_prop (h @ [init_action]) (JObj (length h)) ''type'' = (Inr (JStr ''@INIT'') :: 'e error + jsval)"
    by simp
  from own have r: "read_own (h @ [init_action]) (JObj (length h)) ''type'' = JStr ''@INIT''"
    by (simp add: read_own_def own_lookup_def)
  show ?thesis
    using assms g r
    by (simp add: createStore_def alloc_def dispatch_plain_def getState_def Let_def
        del: get_prop.simps)
qed

text \<open>
  The theorem at the reducer of the small program, with no initial state and with a
  middleware: the state of the new store is the default \<open>false\<close> that the reducer
  declares for its state.
\<close>

theorem createStore_init_witness:
  "\<exists>env w. createStore ex_fs ex_reducer JUndefined (JFun 15) ex_heap = (Inr env, w) \<and>
     getState w = JBool False \<and> calls w = [ReducerCall JUndefined (JObj 17)]"
proof -
  have len: "length ex_heap = 17" by (simp add: ex_heap_def ex_realm_def)
  have g: "get_prop (ex_heap @ [init_action]) (JObj 17) ''type'' = (Inr (JStr ''@INIT'') :: unit error + jsval)"
    by (simp add: init_action_def ex_defs read_defs)
  have h: "ex_reducer JUndefined (JObj (length ex_heap)) (ex_heap @ [init_action]) =
      (Inr (JBool False), ex_heap @ [init_action])"
    using g by (simp add: ex_reducer_def len del: get_prop.simps)
  from createStore_init [where reducer = ex_reducer and initialState = JUndefined
      and h = ex_heap and fs = ex_fs and mw = "JFun 15", OF h]
  show ?thesis
    by (auto simp: len)
qed

section \<open>Subscribing and unsubscribing\<close>

lemma strict_eq_fun: "strict_eq x (JFun f) = (x = JFun f)"
  by (cases x) simp_all

lemma unSubscribe_fun:
  "unSubscribe (JFun f) w = w\<lparr>listeners := removeAll (JFun f) (listeners w)\<rparr>"
proof -
  have "(\<lambda>item. \<not> strict_eq item (JFun f)) = (\<lambda>y. JFun f \<noteq> y)"
    by (auto simp: strict_eq_fun)
  then show ?thesis by (simp add: unSubscribe_def removeAll_filter_not_eq)
qed

lemma count_list_calls: "count_list (map ListenerCall ls) (ListenerCall l) = count_list ls l"
  by (induction ls) auto

text \<open>
  When the listeners of a list with one more at its end have all returned, those
  before the last have returned, and the last was called in the heap they left.
\<close>

lemma listeners_run_snoc:
  assumes "listeners_run env s (ls @ [l]) h = Some h2"
  shows "\<exists>h3 f r. l = JFun f \<and> listeners_run env s ls h = Some h3 \<and>
           listener_body env f s h3 = (Inr r, h2)"
proof -
  from assms have c: "call_returns env s l (listeners_run env s ls h) = Some h2"
    by (simp add: listeners_run_def)
  then obtain h3 where h3: "listeners_run env s ls h = Some h3"
    by (cases "listeners_run env s ls h") (auto simp: call_returns_def)
  with c show ?thesis
    by (auto simp: call_returns_def split: jsval.splits prod.splits sum.splits)
qed

lemma ex_run3:
  "listeners_run (ex_env JUndefined) (JBool True) [JFun 11, JFun 12, JFun 13] ex_heap =
     Some (ex_heap @ [literal [(''listener'', JFun 11), (''found'', JBool True)],
                      literal [(''listener'', JFun 12), (''found'', JBool True)],
                      literal [(''listener'', JFun 13), (''found'', JBool True)]])"
  by (simp add: listeners_run_def call_returns_def ex_env_def ex_fs_def)

text \<open>
  Claim C6, as it is stated, fails: after \<open>subscribe\<close> of a listener that was
  subscribed before, a plain dispatch calls that listener twice, not once. Each of the
  two calls has left its object in the heap.
\<close>

theorem resubscribed_listener_called_twice:
  "dispatch (ex_env JUndefined) (Action (JObj 8) (TReturn JUndefined))
     (snd (subscribe (JFun 12) ex_world)) =
     (Inr (JObj 8),
      \<lparr>heap = ex_heap @ [literal [(''listener'', JFun 11), (''found'', JBool True)],
                         literal [(''listener'', JFun 12), (''found'', JBool True)],
                         literal [(''listener'', JFun 12), (''found'', JBool True)]],
       currentState = JBool True, listeners = [JFun 11, JFun 12, JFun 12],
       calls = [ReducerCall (JBool False) (JObj 8), ListenerCall (JFun 11),
                ListenerCall (JFun 12), ListenerCall (JFun 12)]\<rparr>)"
  by (simp add: subscribe_def dispatch_plain_def ex_env_def ex_world_def ex_reducer_def ex_fs_def
      ex_type del: get_prop.simps)

text \<open>
  Claim C6, amended to a listener that is a function and was not in the list before.
  \<open>subscribe\<close> puts the listener last in the list. The function it returns takes the
  listener out of whatever the list is by then, leaves the other listeners in their
  order and the rest of the world as it is, and a second call of it changes nothing
  more. A plain dispatch after the subscription, when the reducer and the listeners
  return, calls the listeners in the order of the list: the world it leaves is the
  one of claim C1 for the longer list, whose heap \<open>h2\<close> is the one the new listener
  has left, called once, with no arguments, in the heap \<open>h3\<close> that the listeners
  before it have left. After the unsubscription a dispatch calls the other listeners
  only and leaves \<open>h3\<close>.
\<close>

theorem subscribe_unsubscribe:
  fixes env :: "'e env"
  assumes fresh: "JFun f \<notin> set (listeners w)"
    and ty: "get_prop (heap w) (JObj a) ''type'' = (Inr t :: 'e error + jsval)"
      "typeof t \<noteq> ''undefined''"
    and red: "rootReducer env (currentState w) (JObj a) (heap w) = (Inr newState, h1)"
    and run: "listeners_run env newState (listeners w @ [JFun f]) h1 = Some h2"
  shows "listeners (snd (subscribe (JFun f) w)) = listeners w @ [JFun f] \<and>
         fst (subscribe (JFun f) w) w2 = w2\<lparr>listeners := removeAll (JFun f) (listeners w2)\<rparr> \<and>
         fst (subscribe (JFun f) w) (fst (subscribe (JFun f) w) w2) =
           fst (subscribe (JFun f) w) w2 \<and>
         dispatch env (Action (JObj a) body) (snd (subscribe (JFun f) w)) =
           (Inr (JObj a),
            w\<lparr>heap := h2, currentState := newState, listeners := listeners w @ [JFun f],
              calls := calls w @ ReducerCall (currentState w) (JObj a) #
                map ListenerCall (listeners w @ [JFun f])\<rparr>) \<and>
         (\<exists>h3 r. listeners_run env newState (listeners w) h1 = Some h3 \<and>
            listener_body env f newState h3 = (Inr r, h2) \<and>
            dispatch env (Action (JObj a) body)
              (fst (subscribe (JFun f) w) (snd (subscribe (JFun f) w))) =
              (Inr (JObj a),
               w\<lparr>heap := h3, currentState := newState,
                 calls := calls w @ ReducerCall (currentState w) (JObj a) #
                   map ListenerCall (listeners w)\<rparr>) \<and>
            ListenerCall (JFun f) \<notin> set (map ListenerCall (listeners w)))"
proof -
  let ?w1 = "w\<lparr>listeners := listeners w @ [JFun f]\<rparr>"
  have sub: "subscribe (JFun f) w = (unSubscribe (JFun f), ?w1)"
    by (simp add: subscribe_def)
  have b: "unSubscribe (JFun f) w2 = w2\<lparr>listeners := removeAll (JFun f) (listeners w2)\<rparr>"
    by (rule unSubscribe_fun)
  have c: "unSubscribe (JFun f) (unSubscribe (JFun f) w2) = unSubscribe (JFun f) w2"
    by (simp add: unSubscribe_fun)
  have w2: "unSubscribe (JFun f) ?w1 = w"
    using fresh by (simp add: unSubscribe_fun)
  have "get_prop (heap ?w1) (JObj a) ''type'' = (Inr t :: 'e error + jsval)"
    and "rootReducer env (currentState ?w1) (JObj a) (heap ?w1) = (Inr newState, h1)"
    and "listeners_run env newState (listeners ?w1) h1 = Some h2"
    using ty red run by simp_all
  from dispatch_plain_returns [OF this(1) ty(2) this(2,3)] have
    d1: "dispatch env (Action (JObj a) body) ?w1 =
      (Inr (JObj a),
       w\<lparr>heap := h2, currentState := newState, listeners := listeners w @ [JFun f],
         calls := calls w @ ReducerCall (currentState w) (JObj a) #
           map ListenerCall (listeners w @ [JFun f])\<rparr>)"
    by simp
  from listeners_run_snoc [OF run] obtain h3 r where
    r3: "listeners_run env newState (listeners w) h1 = Some h3"
    and last: "listener_body env f newState h3 = (Inr r, h2)"
    by auto
  from dispatch_plain_returns [OF ty red r3] have
    d2: "dispatch env (Action (JObj a) body) w =
      (Inr (JObj a),
       w\<lparr>heap := h3, currentState := newState,
         calls := calls w @ ReducerCall (currentState w) (JObj a) #
           map ListenerCall (listeners w)\<rparr>)"
    by simp
  have n2: "ListenerCall (JFun f) \<notin> set (map ListenerCall (listeners w))"
    using fresh by auto
  show ?thesis
    unfolding sub fst_conv snd_conv w2
    using b c d1 r3 last d2 n2 by auto
qed

text \<open>The theorem at a third listener of the small program's store.\<close>

theorem subscribe_unsubscribe_witness:
  "JFun 13 \<notin> set (listeners ex_world) \<and>
   listeners (snd (subscribe (JFun 13) ex_world)) = [JFun 11, JFun 12, JFun 13] \<and>
   listeners (fst (subscribe (JFun 13) ex_world) (snd (subscribe (JFun 13) ex_world))) =
     [JFun 11, JFun 12] \<and>
   dispatch (ex_env JUndefined) (Action (JObj 8) (TReturn JUndefined))
     (snd (subscribe (JFun 13) ex_world)) =
     (Inr (JObj 8),
      \<lparr>heap = ex_heap @ [literal [(''listener'', JFun 11), (''found'', JBool True)],
                         literal [(''listener'', JFun 12), (''found'', JBool True)],
                         literal [(''listener'', JFun 13), (''found'', JBool True)]],
       currentState = JBool True, listeners = [JFun 11, JFun 12, JFun 13],
       calls = [ReducerCall (JBool False) (JObj 8), ListenerCall (JFun 11),
                ListenerCall (JFun 12), ListenerCall (JFun 13)]\<rparr>)"
proof -
  have h1: "JFun 13 \<notin> set (listeners ex_world)" by (simp add: ex_world_def)
  have h2: "get_prop (heap ex_world) (JObj 8) ''type'' = (Inr (JStr ''TOGGLE'') :: unit error + jsval)"
    by (simp add: ex_world_def ex_type del: get_prop.simps)
  have h3: "typeof (JStr ''TOGGLE'') \<noteq> ''undefined''" by simp
  have h4: "rootReducer (ex_env JUndefined) (currentState ex_world) (JObj 8) (heap ex_world) =
      (Inr (JBool True), ex_heap)"
    by (simp add: ex_env_def ex_world_def ex_reduce)
  have h5: "listeners_run (ex_env JUndefined) (JBool True) (listeners ex_world @ [JFun 13]) ex_heap =
     Some (ex_heap @ [literal [(''listener'', JFun 11), (''found'', JBool True)],
                      literal [(''listener'', JFun 12), (''found'', JBool True)],
                      literal [(''listener'', JFun 13), (''found'', JBool True)]])"
    using ex_run3 by (simp add: ex_world_def)
  from subscribe_unsubscribe [OF h1 h2 h3 h4 h5,
      of "snd (subscribe (JFun 13) ex_world)" "TReturn JUndefined"] h1
  show ?thesis
    by (simp add: ex_world_def subscribe_def)
qed

text \<open>
  Claim C7, as it is stated, fails: \<open>subscribe\<close> of a listener that is in the list
  already leaves the list with two occurrences of it, and one dispatch calls it twice.
\<close>

theorem subscribe_twice_invoked_twice:
  "count_list (listeners (snd (subscribe (JFun 11) ex_world))) (JFun 11) = 2 \<and>
   dispatch (ex_env JUndefined) (Action (JObj 8) (TReturn JUndefined))
     (snd (subscribe (JFun 11) ex_world)) =
     (Inr (JObj 8),
      \<lparr>heap = ex_heap @ [literal [(''listener'', JFun 11), (''found'', JBool True)],
                         literal [(''listener'', JFun 12), (''found'', JBool True)],
                         literal [(''listener'', JFun 11), (''found'', JBool True)]],
       currentState = JBool True, listeners = [JFun 11, JFun 12, JFun 11],
       calls = [ReducerCall (JBool False) (JObj 8), ListenerCall (JFun 11),
                ListenerCall (JFun 12), ListenerCall (JFun 11)]\<rparr>)"
  by (simp add: subscribe_def dispatch_plain_def ex_env_def ex_world_def ex_reducer_def ex_fs_def
      ex_type del: get_prop.simps)

text \<open>
  Claim C7, amended. The list of listeners keeps duplicates: \<open>subscribe\<close> adds one
  occurrence of the listener to those the list has already, and a plain dispatch
  calls the listener once for each of its occurrences. When the reducer and the
  listeners return, the dispatch after the subscription leaves the world of claim C1
  for the list with the added occurrence: its heap \<open>h2\<close> is the one left by one more
  call of the listener, made in the heap \<open>h3\<close> that the calls for the occurrences
  before it have left.
\<close>

theorem subscribe_keeps_duplicates:
  fixes env :: "'e env"
  assumes ty: "get_prop (heap w) (JObj a) ''type'' = (Inr t :: 'e error + jsval)"
      "typeof t \<noteq> ''undefined''"
    and red: "rootReducer env (currentState w) (JObj a) (heap w) = (Inr newState, h1)"
    and run: "listeners_run env newState (listeners w @ [l]) h1 = Some h2"
  shows "count_list (listeners (snd (subscribe l w))) l = Suc (count_list (listeners w) l) \<and>
         dispatch env (Action (JObj a) body) (snd (subscribe l w)) =
           (Inr (JObj a),
            w\<lparr>heap := h2, currentState := newState, listeners := listeners w @ [l],
              calls := calls w @ ReducerCall (currentState w) (JObj a) #
                map ListenerCall (listeners w @ [l])\<rparr>) \<and>
         count_list (map ListenerCall (listeners w @ [l])) (ListenerCall l) =
           Suc (count_list (listeners w) l) \<and>
         (\<exists>h3 f r. l = JFun f \<and> listeners_run env newState (listeners w) h1 = Some h3 \<and>
            listener_body env f newState h3 = (Inr r, h2))"
proof -
  let ?w1 = "w\<lparr>listeners := listeners w @ [l]\<rparr>"
  have sub: "snd (subscribe l w) = ?w1"
    by (simp add: subscribe_def)
  have "get_prop (heap ?w1) (JObj a) ''type'' = (Inr t :: 'e error + jsval)"
    and "rootReducer env (currentState ?w1) (JObj a) (heap ?w1) = (Inr newState, h1)"
    and "listeners_run env newState (listeners ?w1) h1 = Some h2"
    using ty red run by simp_all
  from dispatch_plain_returns [OF this(1) ty(2) this(2,3)] have
    d1: "dispatch env (Action (JObj a) body) ?w1 =
      (Inr (JObj a),
       w\<lparr>heap := h2, currentState := newState, listeners := listeners w @ [l],
         calls := calls w @ ReducerCall (currentState w) (JObj a) #
           map ListenerCall (listeners w @ [l])\<rparr>)"
    by simp
  have n1: "count_list (map ListenerCall (listeners w @ [l])) (ListenerCall l) =
      Suc (count_list (listeners w) l)"
    by (simp add: count_list_calls)
  show ?thesis
    unfolding sub using d1 n1 listeners_run_snoc [OF run] by simp
qed

text \<open>
  The theorem at the second listener of the small program, subscribed again: it has
  left two objects in the heap.
\<close>

theorem subscribe_keeps_duplicates_witness:
  "count_list (listeners (snd (subscribe (JFun 12) ex_world))) (JFun 12) = 2 \<and>
   snd (dispatch (ex_env JUndefined) (Action (JObj 8) (TReturn JUndefined))
     (snd (subscribe (JFun 12) ex_world))) =
     \<lparr>heap = ex_heap @ [literal [(''listener'', JFun 11), (''found'', JBool True)],
                        literal [(''listener'', JFun 12), (''found'', JBool True)],
                        literal [(''listener'', JFun 12), (''found'', JBool True)]],
      currentState = JBool True, listeners = [JFun 11, JFun 12, JFun 12],
      calls = [ReducerCall (JBool False) (JObj 8), ListenerCall (JFun 11),
               ListenerCall (JFun 12), ListenerCall (JFun 12)]\<rparr>"
proof -
  have h2: "get_prop (heap ex_world) (JObj 8) ''type'' = (Inr (JStr ''TOGGLE'') :: unit error + jsval)"
    by (simp add: ex_world_def ex_type del: get_prop.simps)
  have h3: "typeof (JStr ''TOGGLE'') \<noteq> ''undefined''" by simp
  have h4: "rootReducer (ex_env JUndefined) (currentState ex_world) (JObj 8) (heap ex_world) =
      (Inr (JBool True), ex_heap)"
    by (simp add: ex_env_def ex_world_def ex_reduce)
  have h5: "listeners_run (ex_env JUndefined) (JBool True) (listeners ex_world @ [JFun 12]) ex_heap =
     Some (ex_heap @ [literal [(''listener'', JFun 11), (''found'', JBool True)],
                      literal [(''listener'', JFun 12), (''found'', JBool True)],
                      literal [(''listener'', JFun 12), (''found'', JBool True)]])"
    by (simp add: listeners_run_def call_returns_def ex_env_def ex_fs_def ex_world_def)
  have c: "count_list (listeners ex_world) (JFun 12) = 1" by (simp add: ex_world_def)
  from subscribe_keeps_duplicates [OF h2 h3 h4 h5, of "TReturn JUndefined"] c
  show ?thesis by (simp add: numeral_2_eq_2 ex_world_def)
qed

section \<open>Shallow equality\<close>

text \<open>
  The keys the loop reads are own keys of the first object, and it reads a key from
  the second object only when that has it as an own key: the reads find the own
  properties.
\<close>

lemma keys_loop_objects:
  assumes "\<forall>k\<in>set ks. hasOwnProperty h (JObj x) k" and "h \<noteq> []"
  shows "keys_loop h (JObj x) (JObj y) ks =
     Inr (\<forall>k\<in>set ks. hasOwnProperty h (JObj y) k \<and>
            Object_is (read_own h (JObj x) k) (read_own h (JObj y) k))"
  using assms
  by (induction ks) (auto simp: get_prop_has_own simp del: get_prop.simps)

lemma Object_keys_own:
  assumes "k \<in> set (Object_keys h (JObj x))"
  shows "hasOwnProperty h (JObj x) k"
proof -
  from assms obtain p where "(k, p) \<in> set (object_at h x)"
    by (auto simp: Object_keys_def)
  then obtain q where "map_of (object_at h x) k = Some q"
    using weak_map_of_SomeI by fastforce
  then show ?thesis
    by (simp add: hasOwnProperty_def own_lookup_def own_prop_def)
qed

lemma Object_keys_empty_heap: "Object_keys [] (JObj x) = []"
  by (simp add: Object_keys_def object_at_def)

text \<open>What is an own property of an object, and its value, depend on the object alone.\<close>

lemma own_lookup_object_at:
  "object_at h2 x = object_at h x \<Longrightarrow> own_lookup h2 (JObj x) k = own_lookup h (JObj x) k"
  by (simp add: own_lookup_def own_prop_def)

lemma read_own_object_at:
  assumes "object_at h2 x = object_at h x"
  shows "read_own h2 (JObj x) k = read_own h (JObj x) k"
proof (cases "own_lookup h (JObj x) k")
  case (Found p)
  with own_lookup_object_at [OF assms, of k] show ?thesis
    by (simp add: read_own_def)
next
  case ProtoAccessor
  then have "x = Object_prototype"
    by (simp add: own_lookup_def split: option.splits if_splits)
  with ProtoAccessor own_lookup_object_at [OF assms, of k] show ?thesis
    by (simp add: read_own_def prototype_of_def)
next
  case Absent
  with own_lookup_object_at [OF assms, of k] show ?thesis
    by (simp add: read_own_def)
qed

lemma shallowEqual_condition:
  "shallowEqual h a b =
     (Inr (Object_is a b \<or>
          (typeof a = ''object'' \<and> a \<noteq> JNull \<and> typeof b = ''object'' \<and> b \<noteq> JNull \<and>
           length (Object_keys h a) = length (Object_keys h b) \<and>
           (\<forall>k\<in>set (Object_keys h a).
              hasOwnProperty h b k \<and> Object_is (read_own h a k) (read_own h b k)))) ::
      'e error + bool)"
proof (cases "Object_is a b")
  case True
  then show ?thesis by (simp add: shallowEqual_def)
next
  case False
  show ?thesis
  proof (cases "typeof a = ''object'' \<and> a \<noteq> JNull \<and> typeof b = ''object'' \<and> b \<noteq> JNull")
    case True
    then obtain x y where xy: "a = JObj x" "b = JObj y"
      by (auto simp: typeof_object_iff)
    have own: "\<forall>k\<in>set (Object_keys h (JObj x)). hasOwnProperty h (JObj x) k"
      by (simp add: Object_keys_own)
    have "keys_loop h (JObj x) (JObj y) (Object_keys h (JObj x)) =
        (Inr (\<forall>k\<in>set (Object_keys h (JObj x)). hasOwnProperty h (JObj y) k \<and>
            Object_is (read_own h (JObj x) k) (read_own h (JObj y) k)) :: 'e error + bool)"
    proof (cases "h = []")
      case True
      then show ?thesis by (simp add: Object_keys_empty_heap)
    next
      case False
      with own show ?thesis by (rule keys_loop_objects)
    qed
    with xy False show ?thesis
      by (simp add: shallowEqual_def)
  next
    case False
    with \<open>\<not> Object_is a b\<close> show ?thesis
      by (auto simp: shallowEqual_def)
  qed
qed

lemma shallowEqual_objects_only:
  assumes "object_at h2 x = object_at h x" "object_at h2 y = object_at h y"
  shows "shallowEqual h2 (JObj x) (JObj y) = (shallowEqual h (JObj x) (JObj y) :: 'e error + bool)"
proof -
  from assms have keys: "Object_keys h2 (JObj x) = Object_keys h (JObj x)"
    "Object_keys h2 (JObj y) = Object_keys h (JObj y)"
    by (simp_all add: Object_keys_def)
  have own: "hasOwnProperty h2 (JObj y) k = hasOwnProperty h (JObj y) k" for k
    by (simp add: hasOwnProperty_def own_lookup_object_at [OF assms(2)])
  have rx: "read_own h2 (JObj x) k = read_own h (JObj x) k" for k
    by (rule read_own_object_at [OF assms(1)])
  have ry: "read_own h2 (JObj y) k = read_own h (JObj y) k" for k
    by (rule read_own_object_at [OF assms(2)])
  show ?thesis
    by (simp add: shallowEqual_condition keys own rx ry)
qed

text \<open>
  Claim C8. \<open>shallowEqual\<close> returns, and what it returns is true exactly when the two
  values are the same for \<open>Object.is\<close>, or both are objects other than \<open>null\<close> with
  equally many own enumerable keys such that the second has every own enumerable key
  of the first as an own key, with a value that is the same for \<open>Object.is\<close>. Only
  the two objects' own properties are looked at: a change of the heap that leaves
  these as they are, such as a change inside an object they refer to, does not change
  the result.
\<close>

theorem shallowEqual_iff:
  "shallowEqual h a b =
     (Inr (Object_is a b \<or>
          (typeof a = ''object'' \<and> a \<noteq> JNull \<and> typeof b = ''object'' \<and> b \<noteq> JNull \<and>
           length (Object_keys h a) = length (Object_keys h b) \<and>
           (\<forall>k\<in>set (Object_keys h a).
              hasOwnProperty h b k \<and> Object_is (read_own h a k) (read_own h b k)))) ::
      'e error + bool) \<and>
   (object_at h2 x = object_at h x \<and> object_at h2 y = object_at h y \<longrightarrow>
      shallowEqual h2 (JObj x) (JObj y) = (shallowEqual h (JObj x) (JObj y) :: 'e error + bool))"
  using shallowEqual_condition [of h a b] shallowEqual_objects_only [of h2 x h y]
  by blast

text \<open>
  The theorem at two different objects whose properties hold the same array and the
  same number: they are shallowly equal, and stay so when the array is replaced by an
  empty object.
\<close>

theorem shallowEqual_iff_witness:
  "shallowEqual ex_props (JObj 8) (JObj 9) = (Inr True :: unit error + bool) \<and>
   \<not> Object_is (JObj 8) (JObj 9) \<and>
   shallowEqual (ex_props[10 := literal []]) (JObj 8) (JObj 9) = (Inr True :: unit error + bool)"
proof -
  have same: "object_at (ex_props[10 := literal []]) 8 = object_at ex_props 8 \<and>
      object_at (ex_props[10 := literal []]) 9 = object_at ex_props 9"
    by (simp add: ex_props_def ex_realm_def object_at_def)
  from shallowEqual_iff [where ?'e = unit, of ex_props "JObj 8" "JObj 9" "ex_props[10 := literal []]" 8 9]
    same
  show ?thesis
    by (simp add: ex_props_def ex_realm_def literal_def object_at_def read_own_def
        hasOwnProperty_def own_lookup_def own_prop_def Object_keys_def)
qed

section \<open>The middleware argument\<close>

lemma notify_env:
  "listener_body e1 = listener_body e2 \<Longrightarrow> notify e1 ls w = notify e2 ls w"
  by (induction ls arbitrary: w) (auto split: jsval.splits sum.splits prod.splits)

lemma dispatch_plain_env:
  "rootReducer e1 = rootReducer e2 \<Longrightarrow> listener_body e1 = listener_body e2 \<Longrightarrow>
   dispatch_plain e1 v w = dispatch_plain e2 v w"
  by (simp add: dispatch_plain_def notify_env [of e1 e2]
      cong: sum.case_cong prod.case_cong if_cong)

lemma dispatch_env:
  assumes "rootReducer e1 = rootReducer e2" "listener_body e1 = listener_body e2"
    "truthy (middleware e1) = truthy (middleware e2)"
  shows "dispatch e1 a w = dispatch e2 a w" and "run_thunk e1 t w = run_thunk e2 t w"
proof (induction a and t arbitrary: w and w)
  case (Action v body)
  then show ?case using assms by (simp add: dispatch_plain_env [of e1 e2])
qed simp_all

lemma run_ops_env:
  assumes "rootReducer e1 = rootReducer e2" "listener_body e1 = listener_body e2"
    "truthy (middleware e1) = truthy (middleware e2)"
  shows "run_ops e1 ops hs w = run_ops e2 ops hs w"
proof (induction ops arbitrary: hs w)
  case Nil
  then show ?case by simp
next
  case (Cons op ops)
  then show ?case
    by (cases op) (simp_all add: dispatch_env(1) [OF assms] split: prod.splits)
qed

text \<open>
  Claim C10. No definition above calls the middleware: \<open>dispatch\<close> tests whether it is
  truthy and does nothing else with it. So two stores made from the same reducer, the
  same initial state and two truthy middleware values cannot be told apart: whatever
  the caller does with them, it sees the same results and errors, and the worlds at
  the end are the same.
\<close>

theorem middleware_truthiness_only:
  assumes "truthy m1" "truthy m2"
  shows "session fs reducer initialState m1 h ops = session fs reducer initialState m2 h ops"
proof -
  let ?e1 = "\<lparr>rootReducer = reducer, middleware = m1, listener_body = fs\<rparr>"
  let ?e2 = "\<lparr>rootReducer = reducer, middleware = m2, listener_body = fs\<rparr>"
  let ?A = "Action (JObj (length h)) (TReturn JUndefined)"
  let ?W = "\<lparr>heap = h @ [init_action], currentState = initialState, listeners = [], calls = []\<rparr>"
  have r: "rootReducer ?e1 = rootReducer ?e2" and l: "listener_body ?e1 = listener_body ?e2"
    and t: "truthy (middleware ?e1) = truthy (middleware ?e2)"
    using assms by simp_all
  have d: "dispatch ?e1 ?A ?W = dispatch ?e2 ?A ?W"
    by (rule dispatch_env(1) [OF r l t])
  have o: "run_ops ?e1 ops [] w = run_ops ?e2 ops [] w" for w
    by (rule run_ops_env [OF r l t])
  have c1: "createStore fs reducer initialState m1 h =
      (case dispatch ?e1 ?A ?W of (Inl e, w') \<Rightarrow> (Inl e, w') | (Inr r, w') \<Rightarrow> (Inr ?e1, w'))"
    by (simp add: createStore_def alloc_def Let_def del: dispatch.simps)
  have c2: "createStore fs reducer initialState m2 h =
      (case dispatch ?e2 ?A ?W of (Inl e, w') \<Rightarrow> (Inl e, w') | (Inr r, w') \<Rightarrow> (Inr ?e2, w'))"
    by (simp add: createStore_def alloc_def Let_def del: dispatch.simps)
  obtain res w' where dw: "dispatch ?e2 ?A ?W = (res, w')"
    by (cases "dispatch ?e2 ?A ?W")
  show ?thesis
    unfolding session_def c1 c2 d dw
    by (cases res) (simp_all add: o)
qed

text \<open>
  The theorem at a function and a string as middleware, with what the caller sees in
  six steps.
\<close>

theorem middleware_truthiness_only_witness:
  "truthy (JFun 15) \<and> truthy (JStr ''thunk'') \<and>
   session ex_fs ex_reducer JUndefined (JFun 15) ex_heap ex_ops =
     session ex_fs ex_reducer JUndefined (JStr ''thunk'') ex_heap ex_ops \<and>
   fst (session ex_fs ex_reducer JUndefined (JStr ''thunk'') ex_heap ex_ops) =
     Inr [Handle, Returned JUndefined, Returned (JBool True), Returned JUndefined,
          Returned (JObj 8), Returned (JBool False)]"
proof -
  have h1: "truthy (JFun 15)" and h2: "truthy (JStr ''thunk'')" by simp_all
  have v: "fst (session ex_fs ex_reducer JUndefined (JStr ''thunk'') ex_heap ex_ops) =
     Inr [Handle, Returned JUndefined, Returned (JBool True), Returned JUndefined,
          Returned (JObj 8), Returned (JBool False)]"
    by (simp add: session_def createStore_def alloc_def init_action_def ex_ops_def ex_thunk_def
        subscribe_def unSubscribe_def getState_def dispatch_plain_def ex_defs read_defs)
  from middleware_truthiness_only [OF h1 h2, of ex_fs ex_reducer JUndefined ex_heap ex_ops] v
  show ?thesis by simp
qed

end
